theory Spec2Isabelle
  imports Main
begin

section \<open>athena\_query\_executor.py: a shallow embedding\<close>

text \<open>
  The module runs one Athena query, polls until the execution leaves the states
  RUNNING and QUEUED, derives the address of the result object and downloads it.
  Python strings are \<^typ>\<open>string\<close>; a raised exception is the left summand of a sum;
  the two AWS clients are a record of functions, and every call to them, every
  \<^verbatim>\<open>time.sleep\<close> and every \<^verbatim>\<open>print\<close> is an event of a trace. The polling loop has no
  bound in the source, so it is a partial function into \<^typ>\<open>'a option\<close>: \<open>None\<close> is
  a loop that never ends.
\<close>

subsection \<open>Exceptions\<close>

text \<open>
  \<^verbatim>\<open>ValueError\<close>, \<^verbatim>\<open>KeyError\<close> and \<^verbatim>\<open>Exception\<close> are the classes the module itself raises
  (the second through a subscript on a response dictionary); \<open>OtherError\<close> stands for
  any other subclass of \<^verbatim>\<open>Exception\<close> raised inside boto3, carrying its message.
\<close>

datatype exn = ValueError string | KeyError string | Exception string | OtherError string

text \<open>
  \<^verbatim>\<open>str(e)\<close>, as the f-string of the handler formats it. For a \<^verbatim>\<open>KeyError\<close> it is the
  \<^verbatim>\<open>repr\<close> of the key: the key in single quotes, for a key with no quote or escape in it.
\<close>

fun str :: "exn \<Rightarrow> string" where
  "str (ValueError m) = m"
| "str (KeyError k) = [CHR 0x27] @ k @ [CHR 0x27]"
| "str (Exception m) = m"
| "str (OtherError m) = m"

subsection \<open>String operations of Python\<close>

text \<open>\<^verbatim>\<open>s.startswith(p)\<close>\<close>

fun startswith :: "string \<Rightarrow> string \<Rightarrow> bool" where
  "startswith s [] = True"
| "startswith [] (p # ps) = False"
| "startswith (x # xs) (p # ps) = (x = p \<and> startswith xs ps)"

text \<open>\<^verbatim>\<open>s.split(sep, maxsplit)\<close> for a separator of one character.\<close>

fun split :: "string \<Rightarrow> char \<Rightarrow> nat \<Rightarrow> string list" where
  "split s sep 0 = [s]"
| "split s sep (Suc n) =
     (if sep \<in> set s
      then takeWhile (\<lambda>c. c \<noteq> sep) s # split (tl (dropWhile (\<lambda>c. c \<noteq> sep) s)) sep n
      else [s])"

text \<open>\<^verbatim>\<open>s.rstrip(chars)\<close>: the longest suffix made of characters of \<open>chars\<close> is removed.\<close>

definition rstrip :: "string \<Rightarrow> string \<Rightarrow> string" where
  "rstrip s chars = rev (dropWhile (\<lambda>c. c \<in> set chars) (rev s))"

subsection \<open>parse\_s3\_uri and ensure\_no\_trailing\_slash\<close>

definition parse_s3_uri :: "string \<Rightarrow> exn + (string \<times> string)" where
  "parse_s3_uri s3_uri =
     (if \<not> startswith s3_uri ''s3://''
      then Inl (ValueError (''Invalid S3 URI. Must start with 's3://'' @ [CHR 0x27]))
      else let parts = split (drop 5 s3_uri) CHR ''/'' 1 in
        if length parts \<noteq> 2 then Inl (ValueError ''Invalid S3 URI format.'')
        else Inr (parts ! 0, parts ! 1))"

definition ensure_no_trailing_slash :: "string \<Rightarrow> string" where
  "ensure_no_trailing_slash s = rstrip s ''/''"

subsection \<open>The AWS clients\<close>

text \<open>
  What \<^verbatim>\<open>get_query_execution\<close> answers: the state, and the reason of the last state
  change, a key the service may leave out of the dictionary.
\<close>

record status_response =
  State :: string
  StateChangeReason :: "string option"

text \<open>
  \<open>session\<close> is \<^verbatim>\<open>boto3.Session(profile_name=...)\<close> followed by \<^verbatim>\<open>.client(...)\<close>: it
  raises or not. \<open>get_query_execution w h k\<close> is the answer to the call number \<open>k\<close>
  (from 0) for the execution \<open>h\<close>. \<open>download_file\<close> raises or not.
\<close>

record aws =
  session :: "string \<Rightarrow> exn option"
  start_query_execution :: "string \<Rightarrow> string \<Rightarrow> string \<Rightarrow> exn + string"
  get_query_execution :: "string \<Rightarrow> nat \<Rightarrow> exn + status_response"
  download_file :: "string \<Rightarrow> string \<Rightarrow> string \<Rightarrow> exn option"

datatype event =
    Print string
  | Sleep nat
  | StartQueryExecution string string string
  | GetQueryExecution string
  | DownloadFile string string string

subsection \<open>execute\_athena\_query\<close>

text \<open>
  The loop \<^verbatim>\<open>while status in ['RUNNING', 'QUEUED']\<close>. The status is \<^verbatim>\<open>'RUNNING'\<close> before
  the first test, so the body runs once at least; \<open>k\<close> counts the calls made so far
  and \<open>tr\<close> is the trace so far. The result is the trace and the last response, or
  the exception of the call that raised.
\<close>

partial_function (option) poll ::
  "aws \<Rightarrow> string \<Rightarrow> nat \<Rightarrow> event list \<Rightarrow> (event list \<times> (exn + status_response)) option"
where
  "poll w query_execution_id k tr =
     (case get_query_execution w query_execution_id k of
        Inl e \<Rightarrow> Some (tr @ [GetQueryExecution query_execution_id], Inl e)
      | Inr response \<Rightarrow>
          (let status = State response in
           if status \<in> set [''SUCCEEDED'', ''FAILED'', ''CANCELLED'']
           then Some (tr @ [GetQueryExecution query_execution_id], Inr response)
           else if status \<in> set [''RUNNING'', ''QUEUED'']
           then poll w query_execution_id (Suc k)
                  (tr @ [GetQueryExecution query_execution_id, Sleep 2])
           else Some (tr @ [GetQueryExecution query_execution_id, Sleep 2], Inr response)))"

definition execute_athena_query ::
  "aws \<Rightarrow> string \<Rightarrow> string \<Rightarrow> string \<Rightarrow> string \<Rightarrow> (event list \<times> (exn + string)) option"
where
  "execute_athena_query w query database output_location profile =
     (case session w profile of
        Some e \<Rightarrow> Some ([], Inl e)
      | None \<Rightarrow>
          (case start_query_execution w query database output_location of
             Inl e \<Rightarrow> Some ([StartQueryExecution query database output_location], Inl e)
           | Inr query_execution_id \<Rightarrow>
               (case poll w query_execution_id 0
                       [StartQueryExecution query database output_location] of
                  None \<Rightarrow> None
                | Some (tr, Inl e) \<Rightarrow> Some (tr, Inl e)
                | Some (tr, Inr response) \<Rightarrow>
                    if State response = ''SUCCEEDED''
                    then Some (tr, Inr (output_location @ ''/'' @ query_execution_id @ ''.csv''))
                    else (case StateChangeReason response of
                            None \<Rightarrow> Some (tr, Inl (KeyError ''StateChangeReason''))
                          | Some reason \<Rightarrow>
                              Some (tr, Inl (Exception
                                (''Query '' @ State response @ '': '' @ reason)))))))"

subsection \<open>download\_csv\_from\_s3\<close>

definition download_csv_from_s3 ::
  "aws \<Rightarrow> string \<Rightarrow> string \<Rightarrow> string \<Rightarrow> event list \<times> (exn + unit)"
where
  "download_csv_from_s3 w s3_uri profile output_file =
     (case session w profile of
        Some e \<Rightarrow> ([], Inl e)
      | None \<Rightarrow>
          (case parse_s3_uri s3_uri of
             Inl e \<Rightarrow> ([], Inl e)
           | Inr (s3_bucket, s3_key) \<Rightarrow>
               (case download_file w s3_bucket s3_key output_file of
                  Some e \<Rightarrow> ([DownloadFile s3_bucket s3_key output_file], Inl e)
                | None \<Rightarrow> ([DownloadFile s3_bucket s3_key output_file], Inr ()))))"

subsection \<open>Module constants and the command line\<close>

type_synonym environ = "string \<rightharpoonup> string"

definition DEFAULT_S3_OUTPUT_URL :: string where
  "DEFAULT_S3_OUTPUT_URL = ''s3://foo''"

definition DEFAULT_PROFILE :: "environ \<Rightarrow> string" where
  "DEFAULT_PROFILE environ =
     (case environ ''AWS_PROFILE'' of None \<Rightarrow> ''aberezin'' | Some v \<Rightarrow> v)"

text \<open>
  The command line as \<^verbatim>\<open>argparse\<close> reads it: the positional query, and four options
  that may be absent.
\<close>

record argv =
  arg_query :: string
  opt_database :: "string option"
  opt_output_location :: "string option"
  opt_profile :: "string option"
  opt_output_file :: "string option"

record args =
  query :: string
  database :: string
  output_location :: string
  profile :: string
  output_file :: string

definition parse_args :: "environ \<Rightarrow> argv \<Rightarrow> args" where
  "parse_args environ v =
     \<lparr> query = arg_query v,
       database = (case opt_database v of None \<Rightarrow> ''stb_dev_tedm'' | Some d \<Rightarrow> d),
       output_location =
         (case opt_output_location v of None \<Rightarrow> DEFAULT_S3_OUTPUT_URL | Some l \<Rightarrow> l),
       profile = (case opt_profile v of None \<Rightarrow> DEFAULT_PROFILE environ | Some p \<Rightarrow> p),
       output_file = (case opt_output_file v of None \<Rightarrow> ''out.csv'' | Some f \<Rightarrow> f) \<rparr>"

subsection \<open>main\<close>

text \<open>The body of the \<^verbatim>\<open>try\<close> block.\<close>

definition main_try :: "aws \<Rightarrow> args \<Rightarrow> (event list \<times> (exn + unit)) option" where
  "main_try w a =
     (case execute_athena_query w (query a) (database a)
             (ensure_no_trailing_slash (output_location a)) (profile a) of
        None \<Rightarrow> None
      | Some (tr, Inl e) \<Rightarrow> Some (tr, Inl e)
      | Some (tr, Inr s3_uri) \<Rightarrow>
          (case download_csv_from_s3 w s3_uri (profile a) (output_file a) of
             (tr', Inl e) \<Rightarrow>
               Some (tr @ [Print (''Query succeeded. Result saved in: '' @ s3_uri)] @ tr', Inl e)
           | (tr', Inr u) \<Rightarrow>
               Some (tr @ [Print (''Query succeeded. Result saved in: '' @ s3_uri)] @ tr' @
                     [Print (''CSV downloaded successfully to: '' @ output_file a)], Inr ())))"

text \<open>
  \<^verbatim>\<open>main\<close>: the arguments are parsed, the body runs, and the handler
  \<^verbatim>\<open>except Exception as e\<close> prints the exception and returns normally.
\<close>

definition main :: "environ \<Rightarrow> aws \<Rightarrow> argv \<Rightarrow> (event list \<times> (exn + unit)) option" where
  "main environ w v =
     (case main_try w (parse_args environ v) of
        None \<Rightarrow> None
      | Some (tr, Inl e) \<Rightarrow> Some (tr @ [Print (''Error: '' @ str e)], Inr ())
      | Some (tr, Inr u) \<Rightarrow> Some (tr, Inr ()))"

text \<open>
  The exit status of the interpreter running \<^verbatim>\<open>main()\<close> as the last statement of the
  script: 1 when an exception leaves \<^verbatim>\<open>main\<close>, 0 when it returns.
\<close>

fun exit_status :: "exn + unit \<Rightarrow> nat" where
  "exit_status (Inl e) = 1"
| "exit_status (Inr u) = 0"

subsection \<open>Example services and command lines\<close>

text \<open>
  A service on which every call succeeds: the submission answers the handle \<open>h\<close> and the
  call number \<open>i\<close> of \<^verbatim>\<open>get_query_execution\<close> answers \<open>sts i\<close>.
\<close>

definition svc :: "string \<Rightarrow> (nat \<Rightarrow> status_response) \<Rightarrow> aws" where
  "svc h sts = \<lparr> session = (\<lambda>p. None),
                 start_query_execution = (\<lambda>q d l. Inr h),
                 get_query_execution = (\<lambda>h' i. Inr (sts i)),
                 download_file = (\<lambda>b k f. None) \<rparr>"

text \<open>QUEUED, then RUNNING, then SUCCEEDED.\<close>

definition sts3 :: "nat \<Rightarrow> status_response" where
  "sts3 i = (if i = 0 then \<lparr>State = ''QUEUED'', StateChangeReason = None\<rparr>
             else if i = 1 then \<lparr>State = ''RUNNING'', StateChangeReason = None\<rparr>
             else \<lparr>State = ''SUCCEEDED'', StateChangeReason = None\<rparr>)"

text \<open>SUCCEEDED at the first call.\<close>

definition sts_succeeded :: "nat \<Rightarrow> status_response" where
  "sts_succeeded i = \<lparr>State = ''SUCCEEDED'', StateChangeReason = None\<rparr>"

text \<open>RUNNING, then FAILED with a reason.\<close>

definition sts_failing :: "nat \<Rightarrow> status_response" where
  "sts_failing i = (if i = 0 then \<lparr>State = ''RUNNING'', StateChangeReason = None\<rparr>
             else \<lparr>State = ''FAILED'', StateChangeReason = Some ''SYNTAX_ERROR: line 1''\<rparr>)"

definition argv1 :: argv where
  "argv1 = \<lparr>arg_query = ''SELECT 1'', opt_database = Some ''db1'',
            opt_output_location = Some ''s3://b/out/'', opt_profile = Some ''p'',
            opt_output_file = None\<rparr>"

definition argv_bare :: argv where
  "argv_bare = \<lparr>arg_query = ''SELECT 1'', opt_database = None,
            opt_output_location = Some ''s3://'', opt_profile = None,
            opt_output_file = None\<rparr>"

text \<open>RUNNING, then CANCELLED, the response holding no reason.\<close>

definition sts_cancelled :: "nat \<Rightarrow> status_response" where
  "sts_cancelled i = (if i = 0 then \<lparr>State = ''RUNNING'', StateChangeReason = None\<rparr>
             else \<lparr>State = ''CANCELLED'', StateChangeReason = None\<rparr>)"

definition argv_path :: "string \<Rightarrow> argv" where
  "argv_path l = \<lparr>arg_query = ''SELECT 1'', opt_database = Some ''db1'',
            opt_output_location = Some l, opt_profile = Some ''p'',
            opt_output_file = None\<rparr>"

section \<open>Properties\<close>

subsection \<open>Strings\<close>

lemma startswith_take: "startswith s p \<longleftrightarrow> take (length p) s = p"
  by (induction s p rule: startswith.induct) auto

lemma split_absent: "sep \<notin> set s \<Longrightarrow> split s sep n = [s]"
  by (cases n) simp_all

lemma split_first: "sep \<notin> set a \<Longrightarrow> split (a @ sep # b) sep (Suc 0) = [a, b]"
  by (induction a) auto

lemma split_once_present:
  "sep \<in> set s \<Longrightarrow> \<exists>a b. split s sep (Suc 0) = [a, b] \<and> s = a @ sep # b \<and> sep \<notin> set a"
proof -
  assume "sep \<in> set s"
  then obtain a b where "s = a @ sep # b" "sep \<notin> set a"
    by (meson split_list_first)
  then show ?thesis using split_first by blast
qed

lemma parse_join: "CHR ''/'' \<notin> set b \<Longrightarrow> parse_s3_uri (''s3://'' @ b @ ''/'' @ k) = Inr (b, k)"
  using split_first [of "CHR ''/''" b k]
  by (simp add: parse_s3_uri_def)

lemma rstrip_idem: "rstrip (rstrip s cs) cs = rstrip s cs"
  by (simp add: rstrip_def dropWhile_idem)

lemma rstrip_noop: "s = [] \<or> last s \<notin> set cs \<Longrightarrow> rstrip s cs = s"
  by (cases s rule: rev_cases) (auto simp: rstrip_def)

lemma rstrip_last: "rstrip s cs \<noteq> [] \<Longrightarrow> last (rstrip s cs) \<notin> set cs"
  unfolding rstrip_def
  by (metis (mono_tags, lifting) hd_dropWhile last_rev rev_is_Nil_conv)

lemma rstrip_unique:
  assumes "set t \<subseteq> set cs" and "l = [] \<or> last l \<notin> set cs"
  shows "rstrip (l @ t) cs = l"
proof -
  have t: "dropWhile (\<lambda>c. c \<in> set cs) (rev t @ rev l) = dropWhile (\<lambda>c. c \<in> set cs) (rev l)"
    using assms(1) by (intro dropWhile_append2) auto
  have "dropWhile (\<lambda>c. c \<in> set cs) (rev l) = rev l"
  proof (cases l rule: rev_cases)
    case Nil
    then show ?thesis by simp
  next
    case (snoc ys y)
    with assms(2) show ?thesis by simp
  qed
  with t show ?thesis by (simp add: rstrip_def)
qed

lemma rstrip_decomp: "\<exists>t. s = rstrip s cs @ t \<and> set t \<subseteq> set cs"
proof -
  have "rev s = takeWhile (\<lambda>c. c \<in> set cs) (rev s) @ dropWhile (\<lambda>c. c \<in> set cs) (rev s)"
    by simp
  then have "s = rev (dropWhile (\<lambda>c. c \<in> set cs) (rev s)) @ rev (takeWhile (\<lambda>c. c \<in> set cs) (rev s))"
    by (metis rev_append rev_rev_ident)
  moreover have "set (rev (takeWhile (\<lambda>c. c \<in> set cs) (rev s))) \<subseteq> set cs"
    by (auto dest: set_takeWhileD)
  ultimately show ?thesis unfolding rstrip_def by blast
qed

lemma parse_no_prefix:
  "\<not> startswith s ''s3://'' \<Longrightarrow>
     parse_s3_uri s = Inl (ValueError (''Invalid S3 URI. Must start with 's3://'' @ [CHR 0x27]))"
  by (simp add: parse_s3_uri_def)

lemma parse_no_separator:
  "startswith s ''s3://'' \<Longrightarrow> CHR ''/'' \<notin> set (drop 5 s) \<Longrightarrow>
     parse_s3_uri s = Inl (ValueError ''Invalid S3 URI format.'')"
  by (simp add: parse_s3_uri_def)

lemma parse_accepts:
  assumes "startswith s ''s3://''" and "CHR ''/'' \<in> set (drop 5 s)"
  shows "\<exists>container key. parse_s3_uri s = Inr (container, key)
      \<and> s = ''s3://'' @ container @ ''/'' @ key
      \<and> CHR ''/'' \<notin> set container"
proof -
  from split_once_present [OF assms(2)] obtain a b where
    ab: "split (drop 5 s) CHR ''/'' (Suc 0) = [a, b]" "drop 5 s = a @ CHR ''/'' # b"
      "CHR ''/'' \<notin> set a"
    by blast
  from assms(1) have "take (length ''s3://'') s = ''s3://''" by (simp only: startswith_take)
  moreover have "length ''s3://'' = (5::nat)" by simp
  ultimately have "take 5 s = ''s3://''" by (simp only:)
  then have "s = ''s3://'' @ drop 5 s" by (metis append_take_drop_id)
  with ab have "s = ''s3://'' @ a @ ''/'' @ b" by simp
  moreover have "parse_s3_uri s = Inr (a, b)"
    using assms(1) ab(1) by (simp add: parse_s3_uri_def)
  ultimately show ?thesis using ab(3) by blast
qed

subsection \<open>The polling loop\<close>

lemma poll_terminal_now:
  assumes "get_query_execution w h k = Inr r"
    and "State r \<in> set [''SUCCEEDED'', ''FAILED'', ''CANCELLED'']"
  shows "poll w h k tr = Some (tr @ [GetQueryExecution h], Inr r)"
  using assms by (subst poll.simps) simp

lemma poll_waiting_now:
  assumes "get_query_execution w h k = Inr r"
    and "State r \<in> set [''RUNNING'', ''QUEUED'']"
  shows "poll w h k tr = poll w h (Suc k) (tr @ [GetQueryExecution h, Sleep 2])"
proof -
  from assms(2) have "State r \<notin> set [''SUCCEEDED'', ''FAILED'', ''CANCELLED'']"
    by auto
  with assms show ?thesis by (subst poll.simps) simp
qed

lemma poll_first_terminal:
  assumes "\<forall>i<n. \<exists>r'. get_query_execution w h (k + i) = Inr r'
              \<and> State r' \<in> set [''RUNNING'', ''QUEUED'']"
    and "get_query_execution w h (k + n) = Inr r"
    and "State r \<in> set [''SUCCEEDED'', ''FAILED'', ''CANCELLED'']"
  shows "poll w h k tr =
           Some (tr @ concat (replicate n [GetQueryExecution h, Sleep 2]) @ [GetQueryExecution h],
                 Inr r)"
  using assms
proof (induction n arbitrary: k tr)
  case 0
  then show ?case by (simp add: poll_terminal_now)
next
  case (Suc n)
  from Suc.prems(1) obtain r' where r': "get_query_execution w h k = Inr r'"
    "State r' \<in> set [''RUNNING'', ''QUEUED'']"
    by force
  have step: "poll w h k tr = poll w h (Suc k) (tr @ [GetQueryExecution h, Sleep 2])"
    using r' by (rule poll_waiting_now)
  have later: "\<forall>i<n. \<exists>r'. get_query_execution w h (Suc k + i) = Inr r'
                  \<and> State r' \<in> set [''RUNNING'', ''QUEUED'']"
  proof (intro allI impI)
    fix i assume "i < n"
    then have "Suc i < Suc n" by simp
    with Suc.prems(1) show "\<exists>r'. get_query_execution w h (Suc k + i) = Inr r'
                  \<and> State r' \<in> set [''RUNNING'', ''QUEUED'']"
      by (metis add_Suc_shift)
  qed
  have "poll w h (Suc k) (tr @ [GetQueryExecution h, Sleep 2]) =
          Some ((tr @ [GetQueryExecution h, Sleep 2]) @
                concat (replicate n [GetQueryExecution h, Sleep 2]) @ [GetQueryExecution h], Inr r)"
    using later Suc.prems(2,3) by (intro Suc.IH) simp_all
  with step show ?case by simp
qed

lemma count_get_calls:
  "length (filter (\<lambda>e. e = GetQueryExecution h)
      (concat (replicate n [GetQueryExecution h, Sleep 2]) @ [GetQueryExecution h])) = Suc n"
  by (induction n) simp_all

lemma first_terminal_poll:
  assumes drawn: "\<forall>i. \<exists>r. get_query_execution w h i = Inr r
        \<and> State r \<in> set [''QUEUED'', ''RUNNING'', ''SUCCEEDED'', ''FAILED'', ''CANCELLED'']"
    and some: "get_query_execution w h m = Inr rm"
      "State rm \<in> set [''SUCCEEDED'', ''FAILED'', ''CANCELLED'']"
  shows "\<exists>n r. n \<le> m \<and> get_query_execution w h n = Inr r
      \<and> State r \<in> set [''SUCCEEDED'', ''FAILED'', ''CANCELLED'']
      \<and> (\<forall>i<n. \<exists>r'. get_query_execution w h i = Inr r'
              \<and> State r' \<in> set [''RUNNING'', ''QUEUED''])"
proof -
  define P where "P i \<longleftrightarrow> (\<exists>r. get_query_execution w h i = Inr r
      \<and> State r \<in> set [''SUCCEEDED'', ''FAILED'', ''CANCELLED''])" for i
  define n where "n = (LEAST i. P i)"
  have "P m" using some by (auto simp: P_def)
  then have Pn: "P n" and le: "n \<le> m"
    unfolding n_def by (rule LeastI, rule Least_le)
  have before: "\<not> P i" if "i < n" for i
    using that not_less_Least unfolding n_def by blast
  from Pn obtain r where r: "get_query_execution w h n = Inr r"
    "State r \<in> set [''SUCCEEDED'', ''FAILED'', ''CANCELLED'']"
    unfolding P_def by blast
  have "\<exists>r'. get_query_execution w h i = Inr r' \<and> State r' \<in> set [''RUNNING'', ''QUEUED'']"
    if "i < n" for i
  proof -
    from drawn obtain r' where r': "get_query_execution w h i = Inr r'"
      "State r' \<in> set [''QUEUED'', ''RUNNING'', ''SUCCEEDED'', ''FAILED'', ''CANCELLED'']"
      by blast
    from before [OF that] r'(1) have "State r' \<notin> set [''SUCCEEDED'', ''FAILED'', ''CANCELLED'']"
      unfolding P_def by simp
    with r' show ?thesis by auto
  qed
  with le r show ?thesis by blast
qed

subsection \<open>The query runner and main\<close>

lemma execute_after_poll:
  assumes "session w p = None"
    and "start_query_execution w q db loc = Inr h"
    and "poll w h 0 [StartQueryExecution q db loc] = Some (tr, Inr r)"
  shows "execute_athena_query w q db loc p =
     (if State r = ''SUCCEEDED'' then Some (tr, Inr (loc @ ''/'' @ h @ ''.csv''))
      else case StateChangeReason r of
             None \<Rightarrow> Some (tr, Inl (KeyError ''StateChangeReason''))
           | Some reason \<Rightarrow> Some (tr, Inl (Exception (''Query '' @ State r @ '': '' @ reason))))"
  using assms by (simp add: execute_athena_query_def)

lemma execute_result_shape:
  assumes "execute_athena_query w q db loc p = Some (tr, Inr u)"
  shows "\<exists>h. start_query_execution w q db loc = Inr h \<and> u = loc @ ''/'' @ h @ ''.csv''"
  using assms
  by (auto simp: execute_athena_query_def split: option.splits sum.splits prod.splits if_splits)

lemma slash_handle:
  "\<not> startswith h ''/'' \<Longrightarrow> \<not> startswith (''s3:/'' @ h @ ''.csv'') ''s3://''"
  by (cases h) simp_all

lemma no_download_in_polling:
  "DownloadFile b k f \<notin> set (StartQueryExecution q db loc #
      concat (replicate n [GetQueryExecution h, Sleep 2]) @ [GetQueryExecution h] @ [Print m])"
  by (induction n) simp_all

lemma main_after_execute_error:
  assumes "parse_args environ v = a"
    and "execute_athena_query w (query a) (database a)
           (ensure_no_trailing_slash (output_location a)) (profile a) = Some (tr, Inl e)"
  shows "main environ w v = Some (tr @ [Print (''Error: '' @ str e)], Inr ())"
  using assms by (simp add: main_def main_try_def)

lemma main_after_download_error:
  assumes "parse_args environ v = a"
    and "execute_athena_query w (query a) (database a)
           (ensure_no_trailing_slash (output_location a)) (profile a) = Some (tr, Inr s3_uri)"
    and "download_csv_from_s3 w s3_uri (profile a) (output_file a) = (tr', Inl e)"
  shows "main environ w v =
     Some (tr @ [Print (''Query succeeded. Result saved in: '' @ s3_uri)] @ tr' @
           [Print (''Error: '' @ str e)], Inr ())"
  using assms by (simp add: main_def main_try_def)

lemma main_after_execute_ok:
  assumes "parse_args environ v = a"
    and "execute_athena_query w (query a) (database a)
           (ensure_no_trailing_slash (output_location a)) (profile a) = Some (tr, Inr s3_uri)"
  shows "main environ w v =
     Some (tr @ [Print (''Query succeeded. Result saved in: '' @ s3_uri)] @
           fst (download_csv_from_s3 w s3_uri (profile a) (output_file a)) @
           [Print (case snd (download_csv_from_s3 w s3_uri (profile a) (output_file a)) of
                     Inl e \<Rightarrow> ''Error: '' @ str e
                   | Inr u \<Rightarrow> ''CSV downloaded successfully to: '' @ output_file a)], Inr ())"
proof (cases "download_csv_from_s3 w s3_uri (profile a) (output_file a)")
  case (Pair tr' res)
  then show ?thesis using assms
    by (cases res) (simp_all add: main_def main_try_def)
qed

lemma main_returns:
  assumes "main environ w v = Some (tr, res)"
  shows "res = Inr ()"
  using assms
  by (auto simp: main_def split: option.splits prod.splits sum.splits)

section \<open>The claims\<close>

text \<open>
  Claim C1, as amended. The parser has no test for empty parts. For every address it
  accepts (the prefix is there, and a separator after it) it returns the pair of the text
  between the prefix and the first separator and of the text after that separator: the
  address is the prefix, the container, one separator and the key, and the container holds
  no separator. Either part may be empty.
\<close>

theorem parse_s3_uri_accepted:
  assumes "startswith s ''s3://''" and "CHR ''/'' \<in> set (drop 5 s)"
  shows "\<exists>container key. parse_s3_uri s = Inr (container, key)
      \<and> s = ''s3://'' @ container @ ''/'' @ key
      \<and> CHR ''/'' \<notin> set container"
  using assms by (rule parse_accepts)

theorem parse_s3_uri_accepted_witness:
  "startswith ''s3://bucket/'' ''s3://'' \<and> CHR ''/'' \<in> set (drop 5 ''s3://bucket/'')
   \<and> (\<exists>container key. parse_s3_uri ''s3://bucket/'' = Inr (container, key)
      \<and> ''s3://bucket/'' = ''s3://'' @ container @ ''/'' @ key
      \<and> CHR ''/'' \<notin> set container)"
proof -
  have a: "startswith ''s3://bucket/'' ''s3://''" by simp
  have b: "CHR ''/'' \<in> set (drop 5 ''s3://bucket/'')" by simp
  from parse_s3_uri_accepted [OF a b] a b show ?thesis by blast
qed

text \<open>
  Claim C1 as stated fails: an empty key and an empty container are both returned, with
  no error.
\<close>

theorem parse_s3_uri_empty_parts_counterexample:
  "parse_s3_uri ''s3://bucket/'' = Inr (''bucket'', [])
   \<and> parse_s3_uri ''s3:///key'' = Inr ([], ''key'')"
  by (simp add: parse_s3_uri_def)

text \<open>
  Claim C2, at a cancelled execution whose response holds no \<^verbatim>\<open>StateChangeReason\<close>: the
  subscript of line 76 raises \<^verbatim>\<open>KeyError\<close> while the message is being formatted, so what
  \<^verbatim>\<open>execute_athena_query\<close> raises carries neither the status nor a reason, and \<^verbatim>\<open>main\<close>
  prints the name of the key. No download is attempted.
\<close>

theorem cancelled_without_reason_raises_KeyError:
  "execute_athena_query (svc ''h1'' sts_cancelled) ''SELECT 1'' ''db1'' ''s3://b/out'' ''p'' =
     Some ([StartQueryExecution ''SELECT 1'' ''db1'' ''s3://b/out'',
            GetQueryExecution ''h1'', Sleep 2, GetQueryExecution ''h1''],
           Inl (KeyError ''StateChangeReason''))
   \<and> main Map.empty (svc ''h1'' sts_cancelled) argv1 =
     Some ([StartQueryExecution ''SELECT 1'' ''db1'' ''s3://b/out'',
            GetQueryExecution ''h1'', Sleep 2, GetQueryExecution ''h1'',
            Print (''Error: 'StateChangeReason'' @ [CHR 0x27])], Inr ())"
  by (simp add: main_def main_try_def parse_args_def argv1_def ensure_no_trailing_slash_def
      rstrip_def execute_athena_query_def poll.simps svc_def sts_cancelled_def)

text \<open>
  What holds of every failed or cancelled execution. The arguments are parsed, the session
  and the submission succeed, the polls before number \<open>n\<close> report RUNNING or QUEUED and
  poll \<open>n\<close> reports FAILED or CANCELLED. Then \<^verbatim>\<open>execute_athena_query\<close> raises; when the
  response carries a reason, what it raises is \<^verbatim>\<open>Exception\<close> with the message made of that
  status and that reason. \<^verbatim>\<open>main\<close> prints the error after the trace of the query runner
  and returns: nothing of \<^verbatim>\<open>download_csv_from_s3\<close> has run, and no \<^verbatim>\<open>download_file\<close>
  call is in the trace.
\<close>

theorem failed_query_aborts:
  assumes "parse_args environ v = a"
    and "ensure_no_trailing_slash (output_location a) = loc"
    and "session w (profile a) = None"
    and "start_query_execution w (query a) (database a) loc = Inr h"
    and "\<forall>i<n. \<exists>r'. get_query_execution w h i = Inr r'
            \<and> State r' \<in> set [''RUNNING'', ''QUEUED'']"
    and "get_query_execution w h n = Inr r"
    and "State r \<in> set [''FAILED'', ''CANCELLED'']"
  shows "\<exists>tr e. execute_athena_query w (query a) (database a) loc (profile a) = Some (tr, Inl e)
      \<and> (\<forall>reason. StateChangeReason r = Some reason \<longrightarrow>
            e = Exception (''Query '' @ State r @ '': '' @ reason))
      \<and> main environ w v = Some (tr @ [Print (''Error: '' @ str e)], Inr ())
      \<and> (\<forall>b k f. DownloadFile b k f \<notin> set (tr @ [Print (''Error: '' @ str e)]))"
proof -
  let ?tr = "[StartQueryExecution (query a) (database a) loc] @
      concat (replicate n [GetQueryExecution h, Sleep 2]) @ [GetQueryExecution h]"
  let ?e = "case StateChangeReason r of
              None \<Rightarrow> KeyError ''StateChangeReason''
            | Some reason \<Rightarrow> Exception (''Query '' @ State r @ '': '' @ reason)"
  from assms(7) have fin: "State r \<in> set [''SUCCEEDED'', ''FAILED'', ''CANCELLED'']"
    and ns: "State r \<noteq> ''SUCCEEDED''"
    by auto
  have "poll w h 0 [StartQueryExecution (query a) (database a) loc] = Some (?tr, Inr r)"
    using assms(5,6) fin by (intro poll_first_terminal) simp_all
  from execute_after_poll [OF assms(3,4) this] ns
  have ex: "execute_athena_query w (query a) (database a) loc (profile a) = Some (?tr, Inl ?e)"
    by (simp split: option.splits)
  have msg: "\<forall>reason. StateChangeReason r = Some reason \<longrightarrow>
            ?e = Exception (''Query '' @ State r @ '': '' @ reason)"
    by simp
  have mn: "main environ w v = Some (?tr @ [Print (''Error: '' @ str ?e)], Inr ())"
    using main_after_execute_error [OF assms(1)] ex assms(2) by simp
  have nd: "\<forall>b k f. DownloadFile b k f \<notin> set (?tr @ [Print (''Error: '' @ str ?e)])"
    using no_download_in_polling [of _ _ _ "query a" "database a" loc n h "''Error: '' @ str ?e"]
    by simp
  from ex msg mn nd show ?thesis by blast
qed

theorem failed_query_aborts_witness:
  "main Map.empty (svc ''h1'' sts_failing) argv1 =
     Some ([StartQueryExecution ''SELECT 1'' ''db1'' ''s3://b/out'',
            GetQueryExecution ''h1'', Sleep 2, GetQueryExecution ''h1'',
            Print ''Error: Query FAILED: SYNTAX_ERROR: line 1''], Inr ())"
proof -
  let ?w = "svc ''h1'' sts_failing"
  let ?a = "parse_args Map.empty argv1"
  have b: "ensure_no_trailing_slash (output_location ?a) = ''s3://b/out''"
    by (simp add: parse_args_def argv1_def ensure_no_trailing_slash_def rstrip_def)
  have c: "session ?w (profile ?a) = None" by (simp add: svc_def)
  have d: "start_query_execution ?w (query ?a) (database ?a) ''s3://b/out'' = Inr ''h1''"
    by (simp add: svc_def)
  have e: "\<forall>i<1. \<exists>r'. get_query_execution ?w ''h1'' i = Inr r'
            \<and> State r' \<in> set [''RUNNING'', ''QUEUED'']"
    by (simp add: svc_def sts_failing_def)
  have f: "get_query_execution ?w ''h1'' 1 = Inr (sts_failing 1)" by (simp add: svc_def)
  have g: "State (sts_failing 1) \<in> set [''FAILED'', ''CANCELLED'']"
    by (simp add: sts_failing_def)
  from failed_query_aborts [OF refl b c d e f g]
  obtain tr e where
    ex: "execute_athena_query ?w (query ?a) (database ?a) ''s3://b/out'' (profile ?a) = Some (tr, Inl e)"
    and mn: "main Map.empty ?w argv1 = Some (tr @ [Print (''Error: '' @ str e)], Inr ())"
    by blast
  have "execute_athena_query ?w (query ?a) (database ?a) ''s3://b/out'' (profile ?a) =
      Some ([StartQueryExecution ''SELECT 1'' ''db1'' ''s3://b/out'',
            GetQueryExecution ''h1'', Sleep 2, GetQueryExecution ''h1''],
            Inl (Exception ''Query FAILED: SYNTAX_ERROR: line 1''))"
    by (simp add: execute_athena_query_def poll.simps svc_def sts_failing_def
        parse_args_def argv1_def)
  with ex mn show ?thesis by auto
qed

text \<open>
  Claim C3, as amended: for a non-empty container that holds no separator and a non-empty
  key, which may hold separators, parsing the prefix, the container, one separator and the
  key gives back the container and the key.
\<close>

theorem parse_s3_uri_roundtrip:
  assumes "container \<noteq> []" and "key \<noteq> []" and "CHR ''/'' \<notin> set container"
  shows "parse_s3_uri (''s3://'' @ container @ ''/'' @ key) = Inr (container, key)"
  using assms(3) by (rule parse_join)

theorem parse_s3_uri_roundtrip_witness:
  "parse_s3_uri (''s3://'' @ ''my-bucket'' @ ''/'' @ ''path/to/file.csv'')
     = Inr (''my-bucket'', ''path/to/file.csv'')"
proof -
  have a: "''my-bucket'' \<noteq> []" by simp
  have b: "''path/to/file.csv'' \<noteq> []" by simp
  have c: "CHR ''/'' \<notin> set ''my-bucket''" by simp
  from parse_s3_uri_roundtrip [OF a b c] show ?thesis .
qed

text \<open>
  Claim C3 as stated fails for a container with a separator in it: the split is at the
  first separator of the whole remainder.
\<close>

theorem parse_s3_uri_roundtrip_counterexample:
  "''a/b'' \<noteq> [] \<and> ''c'' \<noteq> []
   \<and> parse_s3_uri (''s3://'' @ ''a/b'' @ ''/'' @ ''c'') = Inr (''a'', ''b/c'')
   \<and> parse_s3_uri (''s3://'' @ ''a/b'' @ ''/'' @ ''c'') \<noteq> Inr (''a/b'', ''c'')"
  by (simp add: parse_s3_uri_def)

text \<open>
  Claim C4. The output location of the command line is \<open>l\<close> followed by a run \<open>t\<close> of
  separators, and \<open>l\<close> does not end with a separator. The session and the submission at
  \<open>l\<close> succeed, the polls before number \<open>n\<close> report RUNNING or QUEUED and poll \<open>n\<close>
  reports SUCCEEDED. Then \<^verbatim>\<open>main\<close> strips the location to \<open>l\<close>, and
  \<^verbatim>\<open>execute_athena_query\<close>, called on it, returns \<open>l\<close>, one separator, the handle and
  \<^verbatim>\<open>.csv\<close>; \<^verbatim>\<open>main\<close> prints that address and hands it to the download.
\<close>

theorem result_address_of_stripped_location:
  assumes "parse_args environ v = a"
    and "output_location a = l @ t"
    and "set t \<subseteq> {CHR ''/''}"
    and "l = [] \<or> last l \<noteq> CHR ''/''"
    and "session w (profile a) = None"
    and "start_query_execution w (query a) (database a) l = Inr h"
    and "\<forall>i<n. \<exists>r'. get_query_execution w h i = Inr r'
            \<and> State r' \<in> set [''RUNNING'', ''QUEUED'']"
    and "get_query_execution w h n = Inr r"
    and "State r = ''SUCCEEDED''"
  shows "ensure_no_trailing_slash (output_location a) = l
      \<and> execute_athena_query w (query a) (database a)
            (ensure_no_trailing_slash (output_location a)) (profile a) =
          Some (StartQueryExecution (query a) (database a) l #
                  concat (replicate n [GetQueryExecution h, Sleep 2]) @ [GetQueryExecution h],
                Inr (l @ ''/'' @ h @ ''.csv''))
      \<and> main environ w v =
          Some ((StartQueryExecution (query a) (database a) l #
                  concat (replicate n [GetQueryExecution h, Sleep 2]) @ [GetQueryExecution h]) @
                [Print (''Query succeeded. Result saved in: '' @ l @ ''/'' @ h @ ''.csv'')] @
                fst (download_csv_from_s3 w (l @ ''/'' @ h @ ''.csv'') (profile a) (output_file a)) @
                [Print (case snd (download_csv_from_s3 w (l @ ''/'' @ h @ ''.csv'')
                                    (profile a) (output_file a)) of
                          Inl e \<Rightarrow> ''Error: '' @ str e
                        | Inr u \<Rightarrow> ''CSV downloaded successfully to: '' @ output_file a)],
                Inr ())"
proof -
  let ?tr = "StartQueryExecution (query a) (database a) l #
      concat (replicate n [GetQueryExecution h, Sleep 2]) @ [GetQueryExecution h]"
  have strip: "ensure_no_trailing_slash (output_location a) = l"
    using rstrip_unique [of t "''/''" l] assms(2,3,4)
    by (simp add: ensure_no_trailing_slash_def)
  have "poll w h 0 [StartQueryExecution (query a) (database a) l] =
      Some ([StartQueryExecution (query a) (database a) l] @
            concat (replicate n [GetQueryExecution h, Sleep 2]) @ [GetQueryExecution h], Inr r)"
    using assms(7,8,9) by (intro poll_first_terminal) simp_all
  from execute_after_poll [OF assms(5,6) this] assms(9)
  have ex: "execute_athena_query w (query a) (database a) l (profile a) =
      Some (?tr, Inr (l @ ''/'' @ h @ ''.csv''))"
    by simp
  with strip have ex': "execute_athena_query w (query a) (database a)
            (ensure_no_trailing_slash (output_location a)) (profile a) =
      Some (?tr, Inr (l @ ''/'' @ h @ ''.csv''))"
    by simp
  from main_after_execute_ok [OF assms(1) ex'] strip ex' show ?thesis by simp
qed

theorem result_address_of_stripped_location_witness:
  "execute_athena_query (svc ''abc-123'' sts3) ''SELECT 1'' ''db1''
       (ensure_no_trailing_slash ''s3://bucket/path'') ''p'' =
     Some ([StartQueryExecution ''SELECT 1'' ''db1'' ''s3://bucket/path'',
            GetQueryExecution ''abc-123'', Sleep 2, GetQueryExecution ''abc-123'', Sleep 2,
            GetQueryExecution ''abc-123''],
           Inr ''s3://bucket/path/abc-123.csv'')
   \<and> execute_athena_query (svc ''abc-123'' sts3) ''SELECT 1'' ''db1''
       (ensure_no_trailing_slash ''s3://bucket/path//'') ''p'' =
     Some ([StartQueryExecution ''SELECT 1'' ''db1'' ''s3://bucket/path'',
            GetQueryExecution ''abc-123'', Sleep 2, GetQueryExecution ''abc-123'', Sleep 2,
            GetQueryExecution ''abc-123''],
           Inr ''s3://bucket/path/abc-123.csv'')
   \<and> main Map.empty (svc ''abc-123'' sts3) (argv_path ''s3://bucket/path//'') =
     Some ([StartQueryExecution ''SELECT 1'' ''db1'' ''s3://bucket/path'',
            GetQueryExecution ''abc-123'', Sleep 2, GetQueryExecution ''abc-123'', Sleep 2,
            GetQueryExecution ''abc-123'',
            Print ''Query succeeded. Result saved in: s3://bucket/path/abc-123.csv'',
            DownloadFile ''bucket'' ''path/abc-123.csv'' ''out.csv'',
            Print ''CSV downloaded successfully to: out.csv''], Inr ())"
proof -
  let ?w = "svc ''abc-123'' sts3"
  let ?a0 = "\<lparr>query = ''SELECT 1'', database = ''db1'', output_location = ''s3://bucket/path'',
       profile = ''p'', output_file = ''out.csv''\<rparr>"
  let ?a2 = "\<lparr>query = ''SELECT 1'', database = ''db1'', output_location = ''s3://bucket/path//'',
       profile = ''p'', output_file = ''out.csv''\<rparr>"
  have a0: "parse_args Map.empty (argv_path ''s3://bucket/path'') = ?a0"
    by (simp add: parse_args_def argv_path_def)
  have a2: "parse_args Map.empty (argv_path ''s3://bucket/path//'') = ?a2"
    by (simp add: parse_args_def argv_path_def)
  have l0: "output_location ?a0 = ''s3://bucket/path'' @ []" by simp
  have l2: "output_location ?a2 = ''s3://bucket/path'' @ ''//''" by simp
  have t0: "set [] \<subseteq> {CHR ''/''}" by simp
  have t2: "set ''//'' \<subseteq> {CHR ''/''}" by simp
  have l: "''s3://bucket/path'' = [] \<or> last ''s3://bucket/path'' \<noteq> CHR ''/''" by simp
  have s0: "session ?w (profile ?a0) = None" by (simp add: svc_def)
  have s2: "session ?w (profile ?a2) = None" by (simp add: svc_def)
  have q0: "start_query_execution ?w (query ?a0) (database ?a0) ''s3://bucket/path'' =
      Inr ''abc-123''"
    by (simp add: svc_def)
  have q2: "start_query_execution ?w (query ?a2) (database ?a2) ''s3://bucket/path'' =
      Inr ''abc-123''"
    by (simp add: svc_def)
  have c: "\<forall>i<Suc (Suc 0). \<exists>r'. get_query_execution ?w ''abc-123'' i = Inr r'
            \<and> State r' \<in> set [''RUNNING'', ''QUEUED'']"
    by (simp add: svc_def sts3_def less_Suc_eq)
  have d: "get_query_execution ?w ''abc-123'' (Suc (Suc 0)) = Inr (sts3 (Suc (Suc 0)))"
    by (simp add: svc_def)
  have e: "State (sts3 (Suc (Suc 0))) = ''SUCCEEDED''" by (simp add: sts3_def)
  have dl: "download_csv_from_s3 ?w ''s3://bucket/path/abc-123.csv'' ''p'' ''out.csv'' =
      ([DownloadFile ''bucket'' ''path/abc-123.csv'' ''out.csv''], Inr ())"
    by (simp add: download_csv_from_s3_def svc_def parse_s3_uri_def)
  note r0 = result_address_of_stripped_location [OF a0 l0 t0 l s0 q0 c d e]
  note r2 = result_address_of_stripped_location [OF a2 l2 t2 l s2 q2 c d e]
  from r0 [THEN conjunct2, THEN conjunct1] have x0: "execute_athena_query ?w ''SELECT 1'' ''db1''
       (ensure_no_trailing_slash ''s3://bucket/path'') ''p'' =
     Some ([StartQueryExecution ''SELECT 1'' ''db1'' ''s3://bucket/path'',
            GetQueryExecution ''abc-123'', Sleep 2, GetQueryExecution ''abc-123'', Sleep 2,
            GetQueryExecution ''abc-123''],
           Inr ''s3://bucket/path/abc-123.csv'')"
    by simp
  from r2 [THEN conjunct2, THEN conjunct1] have x2: "execute_athena_query ?w ''SELECT 1'' ''db1''
       (ensure_no_trailing_slash ''s3://bucket/path//'') ''p'' =
     Some ([StartQueryExecution ''SELECT 1'' ''db1'' ''s3://bucket/path'',
            GetQueryExecution ''abc-123'', Sleep 2, GetQueryExecution ''abc-123'', Sleep 2,
            GetQueryExecution ''abc-123''],
           Inr ''s3://bucket/path/abc-123.csv'')"
    by simp
  from r2 [THEN conjunct2, THEN conjunct2] dl have m2: "main Map.empty ?w (argv_path ''s3://bucket/path//'') =
     Some ([StartQueryExecution ''SELECT 1'' ''db1'' ''s3://bucket/path'',
            GetQueryExecution ''abc-123'', Sleep 2, GetQueryExecution ''abc-123'', Sleep 2,
            GetQueryExecution ''abc-123'',
            Print ''Query succeeded. Result saved in: s3://bucket/path/abc-123.csv'',
            DownloadFile ''bucket'' ''path/abc-123.csv'' ''out.csv'',
            Print ''CSV downloaded successfully to: out.csv''], Inr ())"
    by simp
  from x0 x2 m2 show ?thesis by (intro conjI)
qed

text \<open>
  Claim C5. Whatever exception the query runner raises, \<^verbatim>\<open>main\<close> prints
  \<^verbatim>\<open>Error: \<close> followed by its message after the runner's trace; whatever exception the
  download raises (that of the address parser among them), \<^verbatim>\<open>main\<close> prints it the same way
  after the success line and the download's trace; and whenever \<^verbatim>\<open>main\<close> ends, it
  returns normally, so the exit status is 0.
\<close>

theorem main_catches_every_error:
  assumes "parse_args environ v = a"
    and "ensure_no_trailing_slash (output_location a) = loc"
  shows "(execute_athena_query w (query a) (database a) loc (profile a) = Some (tr, Inl e)
            \<longrightarrow> main environ w v = Some (tr @ [Print (''Error: '' @ str e)], Inr ()))
      \<and> (execute_athena_query w (query a) (database a) loc (profile a) = Some (tr, Inr s3_uri)
          \<and> download_csv_from_s3 w s3_uri (profile a) (output_file a) = (tr', Inl e)
            \<longrightarrow> main environ w v =
                 Some (tr @ [Print (''Query succeeded. Result saved in: '' @ s3_uri)] @ tr' @
                       [Print (''Error: '' @ str e)], Inr ()))
      \<and> (main environ w v = Some (tr'', res) \<longrightarrow> res = Inr () \<and> exit_status res = 0)"
proof (intro conjI impI)
  assume "execute_athena_query w (query a) (database a) loc (profile a) = Some (tr, Inl e)"
  with assms show "main environ w v = Some (tr @ [Print (''Error: '' @ str e)], Inr ())"
    by (simp add: main_after_execute_error)
next
  assume "execute_athena_query w (query a) (database a) loc (profile a) = Some (tr, Inr s3_uri)
          \<and> download_csv_from_s3 w s3_uri (profile a) (output_file a) = (tr', Inl e)"
  with assms show "main environ w v =
                 Some (tr @ [Print (''Query succeeded. Result saved in: '' @ s3_uri)] @ tr' @
                       [Print (''Error: '' @ str e)], Inr ())"
    by (simp add: main_after_download_error)
next
  assume m: "main environ w v = Some (tr'', res)"
  then show "res = Inr ()" by (rule main_returns)
  then show "exit_status res = 0" by simp
qed

theorem main_catches_every_error_witness:
  "main Map.empty (svc ''h1'' sts_succeeded) argv_bare =
     Some ([StartQueryExecution ''SELECT 1'' ''stb_dev_tedm'' ''s3:'',
            GetQueryExecution ''h1'',
            Print ''Query succeeded. Result saved in: s3:/h1.csv'',
            Print (''Error: Invalid S3 URI. Must start with 's3://'' @ [CHR 0x27])], Inr ())
   \<and> exit_status (Inr ()) = 0"
proof -
  let ?w = "svc ''h1'' sts_succeeded"
  let ?a = "parse_args Map.empty argv_bare"
  have loc: "ensure_no_trailing_slash (output_location ?a) = ''s3:''"
    by (simp add: parse_args_def argv_bare_def ensure_no_trailing_slash_def rstrip_def)
  have ex: "execute_athena_query ?w (query ?a) (database ?a) ''s3:'' (profile ?a) =
      Some ([StartQueryExecution ''SELECT 1'' ''stb_dev_tedm'' ''s3:'', GetQueryExecution ''h1''],
            Inr ''s3:/h1.csv'')"
    by (simp add: execute_athena_query_def poll.simps svc_def sts_succeeded_def
        parse_args_def argv_bare_def)
  have dl: "download_csv_from_s3 ?w ''s3:/h1.csv'' (profile ?a) (output_file ?a) =
      ([], Inl (ValueError (''Invalid S3 URI. Must start with 's3://'' @ [CHR 0x27])))"
    by (simp add: download_csv_from_s3_def svc_def parse_s3_uri_def)
  have "main Map.empty ?w argv_bare =
      Some ([StartQueryExecution ''SELECT 1'' ''stb_dev_tedm'' ''s3:'', GetQueryExecution ''h1''] @
            [Print (''Query succeeded. Result saved in: '' @ ''s3:/h1.csv'')] @ [] @
            [Print (''Error: '' @
               str (ValueError (''Invalid S3 URI. Must start with 's3://'' @ [CHR 0x27])))], Inr ())"
    using main_catches_every_error [OF refl loc] ex dl by blast
  then show ?thesis by simp
qed

text \<open>
  Claim C6. Every poll answers one of the five states and some poll answers a terminal
  one. Then the loop ends, after \<open>n + 1\<close> calls of \<^verbatim>\<open>get_query_execution\<close> and \<open>n\<close>
  sleeps of 2, where poll \<open>n\<close> is the first that answers a terminal state: the loop returns
  that response, and every earlier poll answered RUNNING or QUEUED.
\<close>

theorem poll_stops_at_first_terminal:
  assumes "\<forall>i. \<exists>r. get_query_execution w h i = Inr r
        \<and> State r \<in> set [''QUEUED'', ''RUNNING'', ''SUCCEEDED'', ''FAILED'', ''CANCELLED'']"
    and "get_query_execution w h m = Inr rm"
    and "State rm \<in> set [''SUCCEEDED'', ''FAILED'', ''CANCELLED'']"
  shows "\<exists>n r tr. poll w h 0 [] = Some (tr, Inr r)
      \<and> tr = concat (replicate n [GetQueryExecution h, Sleep 2]) @ [GetQueryExecution h]
      \<and> length (filter (\<lambda>e. e = GetQueryExecution h) tr) = Suc n
      \<and> n \<le> m
      \<and> get_query_execution w h n = Inr r
      \<and> State r \<in> set [''SUCCEEDED'', ''FAILED'', ''CANCELLED'']
      \<and> (\<forall>i<n. \<exists>r'. get_query_execution w h i = Inr r'
              \<and> State r' \<in> set [''RUNNING'', ''QUEUED''])"
proof -
  from first_terminal_poll [OF assms] obtain n r where n: "n \<le> m"
    "get_query_execution w h n = Inr r"
    "State r \<in> set [''SUCCEEDED'', ''FAILED'', ''CANCELLED'']"
    "\<forall>i<n. \<exists>r'. get_query_execution w h i = Inr r' \<and> State r' \<in> set [''RUNNING'', ''QUEUED'']"
    by blast
  have "poll w h 0 [] =
      Some ([] @ concat (replicate n [GetQueryExecution h, Sleep 2]) @ [GetQueryExecution h], Inr r)"
    using n(2,3,4) by (intro poll_first_terminal) simp_all
  with n count_get_calls [of h n] show ?thesis by auto
qed

theorem poll_stops_at_first_terminal_witness:
  "\<exists>n r tr. poll \<lparr>session = (\<lambda>p. None), start_query_execution = (\<lambda>q d l. Inr ''h1''),
                  get_query_execution = (\<lambda>h i. Inr (sts3 i)), download_file = (\<lambda>b k f. None)\<rparr>
               ''h1'' 0 [] = Some (tr, Inr r)
      \<and> tr = concat (replicate n [GetQueryExecution ''h1'', Sleep 2]) @ [GetQueryExecution ''h1'']
      \<and> length (filter (\<lambda>e. e = GetQueryExecution ''h1'') tr) = Suc n
      \<and> n \<le> 5
      \<and> State r \<in> set [''SUCCEEDED'', ''FAILED'', ''CANCELLED'']"
proof -
  let ?w = "\<lparr>session = (\<lambda>p. None), start_query_execution = (\<lambda>q d l. Inr ''h1''),
                  get_query_execution = (\<lambda>h i. Inr (sts3 i)), download_file = (\<lambda>b k f. None)\<rparr>"
  have drawn: "\<forall>i. \<exists>r. get_query_execution ?w ''h1'' i = Inr r
        \<and> State r \<in> set [''QUEUED'', ''RUNNING'', ''SUCCEEDED'', ''FAILED'', ''CANCELLED'']"
    by (simp add: sts3_def)
  have some: "get_query_execution ?w ''h1'' 5 = Inr (sts3 5)" by simp
  have fin: "State (sts3 5) \<in> set [''SUCCEEDED'', ''FAILED'', ''CANCELLED'']"
    by (simp add: sts3_def)
  from poll_stops_at_first_terminal [OF drawn some fin] show ?thesis by blast
qed

text \<open>
  Claim C7. Stripping twice is stripping once; a string that is empty or does not end with
  the separator is left as it is; and \<^verbatim>\<open>s3://foo/\<close> and \<^verbatim>\<open>s3://foo\<close> are stripped to the
  same string.
\<close>

theorem ensure_no_trailing_slash_idempotent:
  "ensure_no_trailing_slash (ensure_no_trailing_slash s) = ensure_no_trailing_slash s
   \<and> ((s = [] \<or> last s \<noteq> CHR ''/'') \<longrightarrow> ensure_no_trailing_slash s = s)
   \<and> ensure_no_trailing_slash ''s3://foo/'' = ensure_no_trailing_slash ''s3://foo''"
proof (intro conjI impI)
  show "ensure_no_trailing_slash (ensure_no_trailing_slash s) = ensure_no_trailing_slash s"
    by (simp add: ensure_no_trailing_slash_def rstrip_idem)
  show "ensure_no_trailing_slash s = s" if "s = [] \<or> last s \<noteq> CHR ''/''"
    using that rstrip_noop [of s "''/''"] by (simp add: ensure_no_trailing_slash_def)
  show "ensure_no_trailing_slash ''s3://foo/'' = ensure_no_trailing_slash ''s3://foo''"
    by (simp add: ensure_no_trailing_slash_def rstrip_def)
qed

theorem ensure_no_trailing_slash_idempotent_witness:
  "last ''s3://foo'' \<noteq> CHR ''/''
   \<and> ensure_no_trailing_slash ''s3://foo'' = ''s3://foo''
   \<and> ensure_no_trailing_slash (ensure_no_trailing_slash ''s3://foo/'') = ''s3://foo''"
proof -
  have a: "last ''s3://foo'' \<noteq> CHR ''/''" by simp
  from ensure_no_trailing_slash_idempotent [of "''s3://foo''"] a
  have b: "ensure_no_trailing_slash ''s3://foo'' = ''s3://foo''" by blast
  from ensure_no_trailing_slash_idempotent [of "''s3://foo/''"] b
  have "ensure_no_trailing_slash (ensure_no_trailing_slash ''s3://foo/'') = ''s3://foo''"
    by simp
  with a b show ?thesis by simp
qed

text \<open>
  Claim C8. A string that does not start with \<^verbatim>\<open>s3://\<close> is rejected with a
  \<^verbatim>\<open>ValueError\<close>, and so is one that starts with it and has no separator after it. On
  every string the parser answers either a \<^verbatim>\<open>ValueError\<close> or a pair that rebuilds the
  string: no case is left to an unspecified value.
\<close>

theorem parse_s3_uri_rejects:
  "(\<not> startswith s ''s3://'' \<longrightarrow>
      parse_s3_uri s = Inl (ValueError (''Invalid S3 URI. Must start with 's3://'' @ [CHR 0x27])))
   \<and> (startswith s ''s3://'' \<and> CHR ''/'' \<notin> set (drop 5 s) \<longrightarrow>
      parse_s3_uri s = Inl (ValueError ''Invalid S3 URI format.''))
   \<and> ((\<exists>m. parse_s3_uri s = Inl (ValueError m))
        \<or> (\<exists>container key. parse_s3_uri s = Inr (container, key)
              \<and> s = ''s3://'' @ container @ ''/'' @ key))"
proof (intro conjI impI)
  show "parse_s3_uri s = Inl (ValueError (''Invalid S3 URI. Must start with 's3://'' @ [CHR 0x27]))"
    if "\<not> startswith s ''s3://''"
    using that by (rule parse_no_prefix)
  show "parse_s3_uri s = Inl (ValueError ''Invalid S3 URI format.'')"
    if "startswith s ''s3://'' \<and> CHR ''/'' \<notin> set (drop 5 s)"
    using that by (simp add: parse_no_separator)
  show "(\<exists>m. parse_s3_uri s = Inl (ValueError m))
        \<or> (\<exists>container key. parse_s3_uri s = Inr (container, key)
              \<and> s = ''s3://'' @ container @ ''/'' @ key)"
  proof (cases "startswith s ''s3://''")
    case False
    then show ?thesis using parse_no_prefix by blast
  next
    case True
    show ?thesis
    proof (cases "CHR ''/'' \<in> set (drop 5 s)")
      case True
      with \<open>startswith s ''s3://''\<close> parse_accepts show ?thesis by blast
    next
      case False
      with \<open>startswith s ''s3://''\<close> parse_no_separator show ?thesis by blast
    qed
  qed
qed

theorem parse_s3_uri_rejects_witness:
  "parse_s3_uri ''http://bucket/key'' =
       Inl (ValueError (''Invalid S3 URI. Must start with 's3://'' @ [CHR 0x27]))
   \<and> parse_s3_uri ''s3://bucket'' = Inl (ValueError ''Invalid S3 URI format.'')"
proof -
  have a: "\<not> startswith ''http://bucket/key'' ''s3://''" by simp
  have b: "startswith ''s3://bucket'' ''s3://'' \<and> CHR ''/'' \<notin> set (drop 5 ''s3://bucket'')"
    by simp
  from parse_s3_uri_rejects [of "''http://bucket/key''"] a
  have c: "parse_s3_uri ''http://bucket/key'' =
       Inl (ValueError (''Invalid S3 URI. Must start with 's3://'' @ [CHR 0x27]))"
    by blast
  from parse_s3_uri_rejects [of "''s3://bucket''"] b
  have "parse_s3_uri ''s3://bucket'' = Inl (ValueError ''Invalid S3 URI format.'')"
    by blast
  with c show ?thesis by simp
qed

text \<open>
  Claim C9. Without \<^verbatim>\<open>AWS_PROFILE\<close> in the environment the default profile is
  \<^verbatim>\<open>aberezin\<close>; with it, the default profile is its value; and a command line with no
  \<^verbatim>\<open>--profile\<close> gets the default profile.
\<close>

theorem default_profile_resolution:
  "(environ ''AWS_PROFILE'' = None \<longrightarrow> DEFAULT_PROFILE environ = ''aberezin'')
   \<and> (environ ''AWS_PROFILE'' = Some val \<longrightarrow> DEFAULT_PROFILE environ = val)
   \<and> (opt_profile v = None \<longrightarrow> profile (parse_args environ v) = DEFAULT_PROFILE environ)"
  by (simp add: DEFAULT_PROFILE_def parse_args_def)

theorem default_profile_resolution_witness:
  "profile (parse_args Map.empty
       \<lparr>arg_query = ''SELECT 1'', opt_database = None, opt_output_location = None,
        opt_profile = None, opt_output_file = None\<rparr>) = ''aberezin''
   \<and> profile (parse_args [''AWS_PROFILE'' \<mapsto> ''analytics'']
       \<lparr>arg_query = ''SELECT 1'', opt_database = None, opt_output_location = None,
        opt_profile = None, opt_output_file = None\<rparr>) = ''analytics''"
proof -
  let ?v = "\<lparr>arg_query = ''SELECT 1'', opt_database = None, opt_output_location = None,
        opt_profile = None, opt_output_file = None\<rparr>"
  have a: "(Map.empty :: environ) ''AWS_PROFILE'' = None" by simp
  have b: "[''AWS_PROFILE'' \<mapsto> ''analytics''] ''AWS_PROFILE'' = Some ''analytics''" by simp
  have c: "opt_profile ?v = None" by simp
  from default_profile_resolution [of Map.empty _ ?v] a c
  have d: "profile (parse_args Map.empty ?v) = ''aberezin''" by simp
  from default_profile_resolution [of "[''AWS_PROFILE'' \<mapsto> ''analytics'']" "''analytics''" ?v] b c
  have "profile (parse_args [''AWS_PROFILE'' \<mapsto> ''analytics''] ?v) = ''analytics''" by simp
  with d show ?thesis by simp
qed

text \<open>
  Claim C10, as amended. Stripping removes the whole run of trailing separators, those of
  the prefix too: \<^verbatim>\<open>s3://\<close> becomes \<^verbatim>\<open>s3:\<close>. A result address derived from that location,
  for a handle that does not itself start with a separator, does not start with the prefix
  and the parser rejects it.
\<close>

theorem bare_prefix_result_rejected:
  "(\<exists>t. s = ensure_no_trailing_slash s @ t \<and> set t \<subseteq> {CHR ''/''})
   \<and> (ensure_no_trailing_slash s = [] \<or> last (ensure_no_trailing_slash s) \<noteq> CHR ''/'')
   \<and> ensure_no_trailing_slash ''s3://'' = ''s3:''
   \<and> (execute_athena_query w q db (ensure_no_trailing_slash ''s3://'') p = Some (tr, Inr s3_uri)
        \<and> start_query_execution w q db ''s3:'' = Inr h \<and> \<not> startswith h ''/''
      \<longrightarrow> s3_uri = ''s3:/'' @ h @ ''.csv''
          \<and> \<not> startswith s3_uri ''s3://''
          \<and> parse_s3_uri s3_uri =
              Inl (ValueError (''Invalid S3 URI. Must start with 's3://'' @ [CHR 0x27])))"
proof (intro conjI impI)
  show "\<exists>t. s = ensure_no_trailing_slash s @ t \<and> set t \<subseteq> {CHR ''/''}"
    using rstrip_decomp [of s "''/''"] by (simp add: ensure_no_trailing_slash_def)
  show "ensure_no_trailing_slash s = [] \<or> last (ensure_no_trailing_slash s) \<noteq> CHR ''/''"
    using rstrip_last [of s "''/''"] by (auto simp: ensure_no_trailing_slash_def)
  show strip: "ensure_no_trailing_slash ''s3://'' = ''s3:''"
    by (simp add: ensure_no_trailing_slash_def rstrip_def)
  assume a: "execute_athena_query w q db (ensure_no_trailing_slash ''s3://'') p = Some (tr, Inr s3_uri)
        \<and> start_query_execution w q db ''s3:'' = Inr h \<and> \<not> startswith h ''/''"
  with strip have "execute_athena_query w q db ''s3:'' p = Some (tr, Inr s3_uri)" by simp
  from execute_result_shape [OF this] a show u: "s3_uri = ''s3:/'' @ h @ ''.csv''" by simp
  from a have "\<not> startswith h ''/''" by simp
  then show ns: "\<not> startswith s3_uri ''s3://''" unfolding u by (rule slash_handle)
  then show "parse_s3_uri s3_uri =
              Inl (ValueError (''Invalid S3 URI. Must start with 's3://'' @ [CHR 0x27]))"
    by (rule parse_no_prefix)
qed

theorem bare_prefix_result_rejected_witness:
  "parse_s3_uri ''s3:/abc-123.csv'' =
       Inl (ValueError (''Invalid S3 URI. Must start with 's3://'' @ [CHR 0x27]))
   \<and> execute_athena_query (svc ''abc-123'' sts_succeeded) ''SELECT 1'' ''db1''
       (ensure_no_trailing_slash ''s3://'') ''p'' =
     Some ([StartQueryExecution ''SELECT 1'' ''db1'' ''s3:'', GetQueryExecution ''abc-123''],
           Inr ''s3:/abc-123.csv'')"
proof -
  let ?w = "svc ''abc-123'' sts_succeeded"
  let ?tr = "[StartQueryExecution ''SELECT 1'' ''db1'' ''s3:'', GetQueryExecution ''abc-123'']"
  have a: "execute_athena_query ?w ''SELECT 1'' ''db1'' (ensure_no_trailing_slash ''s3://'') ''p'' =
     Some (?tr, Inr ''s3:/abc-123.csv'')"
    by (simp add: execute_athena_query_def poll.simps svc_def sts_succeeded_def
      ensure_no_trailing_slash_def rstrip_def)
  have b: "start_query_execution ?w ''SELECT 1'' ''db1'' ''s3:'' = Inr ''abc-123''"
    by (simp add: svc_def)
  have c: "\<not> startswith ''abc-123'' ''/''" by simp
  from bare_prefix_result_rejected [of _ ?w "''SELECT 1''" "''db1''" "''p''" ?tr
      "''s3:/abc-123.csv''" "''abc-123''"] a b c
  have "parse_s3_uri ''s3:/abc-123.csv'' =
       Inl (ValueError (''Invalid S3 URI. Must start with 's3://'' @ [CHR 0x27]))"
    by blast
  with a show ?thesis by simp
qed

text \<open>
  Claim C10 as stated fails for a handle that starts with a separator: the derived address
  starts with the prefix again, and here the parser accepts it.
\<close>

theorem bare_prefix_result_counterexample:
  "execute_athena_query (svc ''/a/b'' sts_succeeded) ''SELECT 1'' ''db1''
       (ensure_no_trailing_slash ''s3://'') ''p'' =
     Some ([StartQueryExecution ''SELECT 1'' ''db1'' ''s3:'', GetQueryExecution ''/a/b''],
           Inr ''s3://a/b.csv'')
   \<and> startswith ''s3://a/b.csv'' ''s3://''
   \<and> parse_s3_uri ''s3://a/b.csv'' = Inr (''a'', ''b.csv'')"
  by (simp add: execute_athena_query_def poll.simps svc_def sts_succeeded_def
      ensure_no_trailing_slash_def rstrip_def parse_s3_uri_def)

end
